theory Spec2Isabelle
  imports Main
begin

section \<open>Data model (src/models/Sprint.js, src/models/Project.js)\<close>

text \<open>
  An ObjectId is a key of 12 bytes, here the number they spell. A Date is its time value:
  a whole number of milliseconds since the epoch, at most \<open>8.64 * 10 ^ 15\<close> in
  magnitude, which a JavaScript number holds exactly. Subtracting two Dates subtracts
  their time values as JavaScript numbers.
\<close>

type_synonym oid = nat
type_synonym date = int

datatype issue_status = Backlog | ToDo | InProgress | InReview | InTesting | Done

datatype sprint_status = Planned | Active | Completed

text \<open>The embedded time log of sprintSchema; \<open>endTime\<close> is the only optional path.\<close>

record time_log =
  assigneeId :: oid
  issueId :: oid
  startTime :: date
  endTime :: "date option"
  timeSpent :: int

record sprint =
  sprint_id :: oid
  projectId :: oid
  name :: string
  startDate :: date
  endDate :: date
  status :: sprint_status
  issues :: "oid list"
  createdAt :: date
  updatedAt :: date
  timeLogs :: "time_log list"

text \<open>
  The paths of IssueSchema that the sprint and report routes read or write.
  \<open>assigneeId\<close> and \<open>sprintId\<close> are not required by the schema. The schema has a path
  \<open>timeSpent\<close>; it has no path \<open>totalTimeSpent\<close> and no path \<open>sprint\<close>.
\<close>

record issue =
  issue_id :: oid
  issue_projectId :: oid
  issue_status :: issue_status
  issue_assigneeId :: "oid option"
  issue_sprintId :: "oid option"
  issue_timeSpent :: int
  issue_isDeleted :: bool

record project =
  project_id :: oid
  project_isDeleted :: bool

text \<open>The three collections, each in insertion order.\<close>

record db =
  Sprints :: "sprint list"
  Issues :: "issue list"
  Projects :: "project list"

section \<open>Responses\<close>

datatype json = JNum int | JStr string | JArr "json list" | JObj "(string \<times> json) list"

text \<open>The body of \<open>POST /time-log/:sprintId\<close>: every field may be absent.\<close>

record time_log_body =
  body_assigneeId :: "oid option"
  body_issueId :: "oid option"
  body_timeSpent :: "int option"
  body_startTime :: "date option"
  body_endTime :: "date option"

datatype payload =
    NoData
  | SprintDoc sprint
  | TimeSpentInMs int
  | TotalTime int string
  | TimeLogData time_log_body
  | Body json

text \<open>
  A response: the HTTP status, the message of the envelope and its data.
  \<open>setSuccessResponse(res, status, success, data, message)\<close> sends that status with
  the envelope; end-sprint calls it with three arguments, the text in the place of
  \<open>success\<close>, so its envelope has no message and no data.
\<close>

datatype response = Response (code: nat) (message: string) (payload: payload)

section \<open>Store operations\<close>

definition findById :: "('a \<Rightarrow> oid) \<Rightarrow> 'a list \<Rightarrow> oid \<Rightarrow> 'a option" where
  "findById key xs i = List.find (\<lambda>x. key x = i) xs"

text \<open>\<open>doc.save()\<close> of a document that was loaded from the collection: it is written back under its \<open>_id\<close>.\<close>

definition save :: "('a \<Rightarrow> oid) \<Rightarrow> 'a \<Rightarrow> 'a list \<Rightarrow> 'a list" where
  "save key x xs = map (\<lambda>y. if key y = key x then x else y) xs"

text \<open>\<open>Issue.updateMany({ _id: { $in: ids } }, f)\<close>.\<close>

definition updateMany :: "oid list \<Rightarrow> (issue \<Rightarrow> issue) \<Rightarrow> issue list \<Rightarrow> issue list" where
  "updateMany ids f xs = map (\<lambda>x. if issue_id x \<in> set ids then f x else x) xs"

text \<open>
  An Issue document in memory: its schema paths, and the property \<open>totalTimeSpent\<close> that
  the stop route reads and assigns on the document object. IssueSchema declares no such
  path, so it is undefined on a document that was just loaded and \<open>save()\<close> writes the
  schema paths only.
\<close>

record issue_doc =
  paths :: issue
  totalTimeSpent :: "int option"

definition hydrate :: "issue \<Rightarrow> issue_doc" where
  "hydrate i = \<lparr>paths = i, totalTimeSpent = None\<rparr>"

definition issue_save :: "issue_doc \<Rightarrow> issue list \<Rightarrow> issue list" where
  "issue_save doc xs = save issue_id (paths doc) xs"

section \<open>src/utils/dateValidation.js\<close>



section \<open>Sprint lifecycle (src/routes/sprint.js)\<close>


text \<open>\<open>Sprint.findOne({ _id: { $ne: sprintId }, status: 'active', issues: issue._id })\<close> finds a sprint.\<close>

definition isInOtherSprint :: "db \<Rightarrow> oid \<Rightarrow> oid \<Rightarrow> bool" where
  "isInOtherSprint d sid iid =
     (\<exists>x \<in> set (Sprints d). sprint_id x \<noteq> sid \<and> status x = Active \<and> iid \<in> set (issues x))"

definition add_to_sprint :: "db \<Rightarrow> oid \<Rightarrow> oid \<Rightarrow> response \<times> db" where
  "add_to_sprint d iid sid =
     (case findById sprint_id (Sprints d) sid of
        None \<Rightarrow> (Response 404 ''Sprint not found'' NoData, d)
      | Some s \<Rightarrow>
          (case findById issue_id (Issues d) iid of
             None \<Rightarrow> (Response 404 ''Issue not found'' NoData, d)
           | Some i \<Rightarrow>
               if issue_isDeleted i then (Response 404 ''Issue not found'' NoData, d)
               else if issue_id i \<in> set (issues s)
               then (Response 409 ''This Issue already added to this sprint'' NoData, d)
               else if isInOtherSprint d sid (issue_id i)
               then (Response 409 ''Issue is already part of another active sprint'' NoData, d)
               else
                 let s' = s\<lparr>issues := issues s @ [issue_id i]\<rparr>;
                     i' = i\<lparr>issue_status := ToDo\<rparr>
                 in (Response 201 ''Issue added to the sprint and status updated to to_do''
                       (SprintDoc s'),
                     d\<lparr>Sprints := save sprint_id s' (Sprints d),
                       Issues := save issue_id i' (Issues d)\<rparr>)))"

definition start_sprint :: "db \<Rightarrow> oid \<Rightarrow> response \<times> db" where
  "start_sprint d sid =
     (case findById sprint_id (Sprints d) sid of
        None \<Rightarrow> (Response 404 ''Sprint not found or already started'' NoData, d)
      | Some s \<Rightarrow>
          if status s \<noteq> Planned
          then (Response 404 ''Sprint not found or already started'' NoData, d)
          else
            let s' = s\<lparr>status := Active\<rparr>
            in (Response 201 ''sprint started and issues updated'' (SprintDoc s'),
                d\<lparr>Sprints := save sprint_id s' (Sprints d),
                  Issues := updateMany (issues s') (\<lambda>i. i\<lparr>issue_status := ToDo\<rparr>) (Issues d)\<rparr>))"

text \<open>The \<open>$cond\<close> pipeline of end-sprint.\<close>

definition end_status :: "issue_status \<Rightarrow> issue_status" where
  "end_status st = (if st = InProgress then Done else if st = ToDo then Backlog else Done)"

text \<open>
  The handler populates \<open>timeLogs.issueId\<close> and never reads the populated documents;
  the sprint is written back with the references it had.
\<close>

definition end_sprint :: "date \<Rightarrow> db \<Rightarrow> oid \<Rightarrow> response \<times> db" where
  "end_sprint now d sid =
     (case findById sprint_id (Sprints d) sid of
        None \<Rightarrow> (Response 404 ''Sprint not found'' NoData, d)
      | Some s \<Rightarrow>
          if status s = Completed then (Response 400 ''Sprint is already completed'' NoData, d)
          else if \<exists>log \<in> set (timeLogs s). endTime log = None
          then (Response 400
                  ''Cannot end sprint as there are unfinished time logs. Please complete all tasks.''
                  NoData, d)
          else
            let s' = s\<lparr>status := Completed, updatedAt := now\<rparr>
            in (Response 201 [] NoData,
                d\<lparr>Sprints := save sprint_id s' (Sprints d),
                  Issues := updateMany (issues s')
                              (\<lambda>i. i\<lparr>issue_status := end_status (issue_status i)\<rparr>) (Issues d)\<rparr>))"

section \<open>Time logs (src/routes/sprint.js)\<close>

text \<open>
  A running log of an assignee: the start route scans for one with
  \<open>log.assigneeId.equals(assigneeId) && !log.endTime\<close>, which compares the ids.
\<close>

definition running_for :: "oid \<Rightarrow> time_log \<Rightarrow> bool" where
  "running_for a log = (assigneeId log = a \<and> endTime log = None)"

text \<open>
  \<open>toString()\<close> of an ObjectId, a number below \<open>16 ^ 24\<close>: its 24 hexadecimal digits,
  in lower case.
\<close>

definition hex_digit :: "nat \<Rightarrow> char" where
  "hex_digit n = ''0123456789abcdef'' ! n"

fun hex :: "nat \<Rightarrow> nat \<Rightarrow> string" where
  "hex 0 n = []"
| "hex (Suc k) n = hex k (n div 16) @ [hex_digit (n mod 16)]"

definition toString :: "oid \<Rightarrow> string" where
  "toString i = hex 24 i"

text \<open>
  The stop route scans with \<open>log.assigneeId.toString() === assigneeId && !log.endTime\<close>,
  where \<open>assigneeId\<close> is the text of the request body as it came, once the
  validator has accepted it as an ObjectId: it accepts every spelling, and only the
  lower-case one can match.
\<close>

definition stop_match :: "string \<Rightarrow> time_log \<Rightarrow> bool" where
  "stop_match a log = (toString (assigneeId log) = a \<and> endTime log = None)"

text \<open>\<open>find\<close> returns the first match by reference; assigning to it changes that element.\<close>

fun update_first :: "('a \<Rightarrow> bool) \<Rightarrow> ('a \<Rightarrow> 'a) \<Rightarrow> 'a list \<Rightarrow> 'a list" where
  "update_first P f [] = []"
| "update_first P f (x # xs) = (if P x then f x # xs else x # update_first P f xs)"

text \<open>
  The clock reads less than \<open>3 * 10 ^ 14\<close> and a stored Date is at most
  \<open>8.64 * 10 ^ 15\<close> in magnitude, so their difference is below \<open>2 ^ 53\<close> and exact.
\<close>

definition time_log_stop :: "date \<Rightarrow> db \<Rightarrow> oid \<Rightarrow> string \<Rightarrow> response \<times> db" where
  "time_log_stop now d sid a =
     (case findById sprint_id (Sprints d) sid of
        None \<Rightarrow> (Response 404 ''Sprint not found'' NoData, d)
      | Some s \<Rightarrow>
          (case List.find (stop_match a) (timeLogs s) of
             None \<Rightarrow> (Response 404 ''No active time-log found'' NoData, d)
           | Some log \<Rightarrow>
               let spent = now - startTime log;
                   stopped = (\<lambda>l. l\<lparr>endTime := Some now, timeSpent := spent\<rparr>);
                   s' = s\<lparr>timeLogs := update_first (stop_match a) stopped (timeLogs s)\<rparr>;
                   Issues' =
                     (case findById issue_id (Issues d) (issueId log) of
                        None \<Rightarrow> Issues d
                      | Some i \<Rightarrow>
                          let doc = hydrate i;
                              doc' = doc\<lparr>totalTimeSpent :=
                                       Some ((case totalTimeSpent doc of None \<Rightarrow> 0 | Some t \<Rightarrow> t)
                                             + spent)\<rparr>
                          in issue_save doc' (Issues d))
               in (Response 201 ''Time log stopped'' (TimeSpentInMs spent),
                   d\<lparr>Issues := Issues', Sprints := save sprint_id s' (Sprints d)\<rparr>)))"

text \<open>
  \<open>getEmployeeById\<close> (src/services/EmployeeFetchService.js) answers with the employee's
  data or with null; the handler only tests it. \<open>issue.assigneeId.equals\<close> throws on an
  issue with no assignee, which the handler's \<open>catch\<close> turns into the 500 response.
\<close>

definition time_log_start ::
  "(oid \<Rightarrow> bool) \<Rightarrow> date \<Rightarrow> db \<Rightarrow> oid \<Rightarrow> oid \<Rightarrow> oid \<Rightarrow> response \<times> db" where
  "time_log_start getEmployeeById now d sid iid a =
     (case findById sprint_id (Sprints d) sid of
        None \<Rightarrow> (Response 404 ''Sprint not found'' NoData, d)
      | Some s \<Rightarrow>
          if status s \<noteq> Active then (Response 400 ''Sprint is not active'' NoData, d)
          else (case findById issue_id (Issues d) iid of
             None \<Rightarrow> (Response 404 ''Issue not exists'' NoData, d)
           | Some i \<Rightarrow>
               if issue_isDeleted i then (Response 404 ''Issue not exists'' NoData, d)
               else if \<not> getEmployeeById a
               then (Response 404 ''assignee not exists in attendance-db'' NoData, d)
               else (case issue_assigneeId i of
                  None \<Rightarrow> (Response 500 ''Server error'' NoData, d)
                | Some owner \<Rightarrow>
                    if owner \<noteq> a
                    then (Response 400
                            ''Assignee ID does not match the assigned user for this issue''
                            NoData, d)
                    else (case List.find (running_for a) (timeLogs s) of
                       Some activeLog \<Rightarrow>
                         (Response 400 ''User already has an active time log on another issue''
                            NoData, d)
                     | None \<Rightarrow>
                         let s' = s\<lparr>timeLogs := timeLogs s @
                                     [\<lparr>assigneeId = a, issueId = iid, startTime = now,
                                       endTime = None, timeSpent = 0\<rparr>]\<rparr>;
                             i' = i\<lparr>issue_status := InProgress\<rparr>
                         in (Response 200 ''Time log started'' NoData,
                             d\<lparr>Sprints := save sprint_id s' (Sprints d),
                               Issues := save issue_id i' (Issues d)\<rparr>)))))"

text \<open>
  \<open>POST /time-log/:sprintId\<close> pushes the body as it came. \<open>findById\<close> of an absent id
  finds nothing; \<open>save()\<close> rejects a log without the required \<open>assigneeId\<close> or
  \<open>startTime\<close>, which the \<open>catch\<close> answers with 500; an absent \<open>timeSpent\<close> takes the
  schema's default 0.
\<close>

definition add_time_log :: "db \<Rightarrow> oid \<Rightarrow> time_log_body \<Rightarrow> response \<times> db" where
  "add_time_log d sid b =
     (case findById sprint_id (Sprints d) sid of
        None \<Rightarrow> (Response 404 ''Sprint not found'' NoData, d)
      | Some s \<Rightarrow>
          (case body_issueId b of
             None \<Rightarrow> (Response 404 ''Issue not found'' NoData, d)
           | Some iid \<Rightarrow>
               (case findById issue_id (Issues d) iid of
                  None \<Rightarrow> (Response 404 ''Issue not found'' NoData, d)
                | Some i \<Rightarrow>
                    (case (body_assigneeId b, body_startTime b) of
                       (Some a, Some st) \<Rightarrow>
                         let timeLog = \<lparr>assigneeId = a, issueId = iid, startTime = st,
                                         endTime = body_endTime b,
                                         timeSpent =
                                           (case body_timeSpent b of None \<Rightarrow> 0 | Some t \<Rightarrow> t)\<rparr>;
                             s' = s\<lparr>timeLogs := timeLogs s @ [timeLog]\<rparr>
                         in (Response 200 [] (TimeLogData b),
                             d\<lparr>Sprints := save sprint_id s' (Sprints d)\<rparr>)
                     | _ \<Rightarrow> (Response 500 ''Server error'' NoData, d)))))"

section \<open>Total sprint time (src/routes/sprint.js)\<close>

text \<open>
  JavaScript numbers are IEEE doubles. Every whole number up to \<open>2 ^ 53\<close> in magnitude
  is a double; a larger one is a double when it is a multiple of the spacing
  \<open>2 ^ (e - 52)\<close> of its binade \<open>2 ^ e \<le> \<bar>k\<bar> < 2 ^ (e + 1)\<close>. The result of \<open>+\<close>,
  \<open>-\<close> and \<open>/\<close> is the nearest double to the exact result, a tie going to the even
  significand.
\<close>

text \<open>The whole number nearest to \<open>p / q\<close>, a tie going to the even one (\<open>0 \<le> p\<close>, \<open>0 < q\<close>).\<close>

definition round_div :: "int \<Rightarrow> int \<Rightarrow> int" where
  "round_div p q =
     (let d = p div q; r = p mod q
      in if 2 * r < q then d else if q < 2 * r then d + 1 else if even d then d else d + 1)"

text \<open>The binade of a positive whole number: \<open>2 ^ ilog2 n \<le> n < 2 ^ (ilog2 n + 1)\<close>.\<close>

fun ilog2 :: "nat \<Rightarrow> nat" where
  "ilog2 n = (if n < 2 then 0 else Suc (ilog2 (n div 2)))"

declare ilog2.simps [simp del]

text \<open>The double nearest to a whole number: what a sum or difference of whole doubles is.\<close>

definition fl :: "int \<Rightarrow> int" where
  "fl k =
     (if \<bar>k\<bar> \<le> 2 ^ 53 then k
      else let q = 2 ^ (ilog2 (nat \<bar>k\<bar>) - 52) in sgn k * (q * round_div \<bar>k\<bar> q))"

text \<open>
  \<open>Math.floor(a / b)\<close> for whole doubles \<open>a\<close> and \<open>b\<close> with \<open>0 < b\<close>: the quotient is
  rounded to a double with a significand of 53 bits, then floored. A positive quotient
  below 1 rounds to 1 from \<open>1 - 2 ^ -54\<close> on; a negative quotient above \<open>-1\<close> has floor
  \<open>-1\<close>.
\<close>

definition floor_quot :: "int \<Rightarrow> int \<Rightarrow> int" where
  "floor_quot a b =
     (if a = 0 then 0
      else if 0 < a then
        (if a < b then (if 2 ^ 54 * (b - a) \<le> b then 1 else 0)
         else
           let e = ilog2 (nat (a div b))
           in if 52 \<le> e then round_div a (b * 2 ^ (e - 52)) * 2 ^ (e - 52)
              else round_div (a * 2 ^ (52 - e)) b div 2 ^ (52 - e))
      else
        (let c = - a
         in if c < b then - 1
            else
              let e = ilog2 (nat (c div b))
              in if 52 \<le> e then - (round_div c (b * 2 ^ (e - 52)) * 2 ^ (e - 52))
                 else - ((round_div (c * 2 ^ (52 - e)) b + 2 ^ (52 - e) - 1) div 2 ^ (52 - e))))"

text \<open>
  JavaScript's \<open>%\<close> takes the sign of the dividend; the remainder of two doubles is a
  double, so nothing is rounded.
\<close>

definition js_rem :: "int \<Rightarrow> int \<Rightarrow> int" where
  "js_rem a b = sgn a * (\<bar>a\<bar> mod \<bar>b\<bar>)"

text \<open>
  A whole number below \<open>2 ^ 53\<close> in magnitude in a template literal: its decimal digits,
  with a minus sign. The hours and minutes of a sprint are such numbers: a document
  holds at most 16 MB, which is fewer than 200000 time logs, each of at most
  \<open>1.728 * 10 ^ 16\<close> ms.
\<close>

definition digit :: "nat \<Rightarrow> char" where
  "digit n = ''0123456789'' ! n"

fun show_nat :: "nat \<Rightarrow> string" where
  "show_nat n = (if n < 10 then [digit n] else show_nat (n div 10) @ [digit (n mod 10)])"

definition show_int :: "int \<Rightarrow> string" where
  "show_int k = (if k < 0 then CHR ''-'' # show_nat (nat (- k)) else show_nat (nat k))"

text \<open>
  The body of the \<open>forEach\<close>: \<open>startTime\<close> is a required Date and a stored Date is
  valid, so the guards come down to \<open>endTime\<close> being set. Both \<open>end - start\<close> and
  \<open>totalTime += timeDifference\<close> are rounded.
\<close>

definition add_log :: "int \<Rightarrow> time_log \<Rightarrow> int" where
  "add_log totalTime log =
     (case endTime log of
        None \<Rightarrow> totalTime
      | Some e \<Rightarrow> let timeDifference = fl (e - startTime log) in fl (totalTime + timeDifference))"

definition total_time :: "db \<Rightarrow> oid \<Rightarrow> response \<times> db" where
  "total_time d sid =
     (case findById sprint_id (Sprints d) sid of
        None \<Rightarrow> (Response 404 ''Sprint not found'' NoData, d)
      | Some s \<Rightarrow>
          if length (timeLogs s) = 0
          then (Response 404 ''No time logs found for this sprint'' NoData, d)
          else
            let totalTime = foldl add_log 0 (timeLogs s);
                hours = floor_quot totalTime (1000 * 60 * 60);
                minutes = floor_quot (js_rem totalTime (1000 * 60 * 60)) (1000 * 60)
            in (Response 200 []
                  (TotalTime totalTime
                     (show_int hours @ '' hours '' @ show_int minutes @ '' minutes'')),
                d))"

text \<open>
  The total as the specification words it: the sum of \<open>endTime - startTime\<close> over the
  logs that have an end time.
\<close>

definition spec_total :: "time_log list \<Rightarrow> int" where
  "spec_total logs =
     (\<Sum>log \<leftarrow> filter (\<lambda>l. endTime l \<noteq> None) logs. the (endTime log) - startTime log)"

text \<open>
  The lengths of those logs added up, each taken positive. While this is at most
  \<open>2 ^ 53\<close> ms, some 285000 years, every difference and every partial sum of the
  handler is a double and nothing is rounded.
\<close>

definition abs_total :: "time_log list \<Rightarrow> int" where
  "abs_total logs =
     (\<Sum>log \<leftarrow> filter (\<lambda>l. endTime l \<noteq> None) logs. \<bar>the (endTime log) - startTime log\<bar>)"

section \<open>Velocity report (src/routes/reports.js)\<close>

text \<open>
  An \<open>async\<close> callback returns a promise at once; the value it will settle to is kept
  here. \<open>res.json\<close> serialises with \<open>JSON.stringify\<close>, for which a promise is an object
  with no enumerable property of its own.
\<close>

datatype 'a promise = Promise 'a

definition stringify_promise :: "'a promise \<Rightarrow> json" where
  "stringify_promise p = JObj []"

text \<open>
  \<open>.limit(n)\<close>: an absent limit and the limit 0 both return every document.
\<close>

definition limit :: "nat option \<Rightarrow> 'a list \<Rightarrow> 'a list" where
  "limit n xs = (case n of None \<Rightarrow> xs | Some k \<Rightarrow> if k = 0 then xs else take k xs)"

text \<open>
  \<open>Issue.find({ sprint: id })\<close> filters on \<open>sprint\<close>, which is no path of IssueSchema.
  With Mongoose's \<open>strictQuery\<close> on, the unknown path is removed from the filter and
  every issue matches; with it off the filter reaches the collection, where no issue
  written through the schema has such a field.
\<close>

definition find_by_sprint :: "bool \<Rightarrow> issue list \<Rightarrow> oid \<Rightarrow> issue list" where
  "find_by_sprint strictQuery xs sid = (if strictQuery then xs else [])"

definition velocity_entry :: "bool \<Rightarrow> db \<Rightarrow> sprint \<Rightarrow> json promise" where
  "velocity_entry strictQuery d s =
     Promise
       (let found = find_by_sprint strictQuery (Issues d) (sprint_id s);
            completedIssues = filter (\<lambda>i. issue_status i = Done) found;
            plannedWork = int (length found);
            completedWork = int (length completedIssues)
        in JObj [(''sprintName'', JStr (name s)), (''plannedWork'', JNum plannedWork),
                 (''completedWork'', JNum completedWork)])"

definition velocity :: "bool \<Rightarrow> db \<Rightarrow> oid \<Rightarrow> nat option \<Rightarrow> response \<times> db" where
  "velocity strictQuery d pid numberOfSprints =
     (let sprints = limit numberOfSprints (filter (\<lambda>s. projectId s = pid) (Sprints d));
          velocityData = map (velocity_entry strictQuery d) sprints
      in (Response 200 []
            (Body (JObj [(''velocityData'', JArr (map stringify_promise velocityData))])),
          d))"

text \<open>What the report is meant to return for one sprint: the issues the sprint lists, and those of them that are done.\<close>

definition linked_issues :: "db \<Rightarrow> sprint \<Rightarrow> issue list" where
  "linked_issues d s = filter (\<lambda>i. issue_id i \<in> set (issues s)) (Issues d)"

section \<open>The invariant on running logs\<close>

definition running_logs :: "oid \<Rightarrow> sprint \<Rightarrow> time_log list" where
  "running_logs a s = filter (running_for a) (timeLogs s)"

definition one_running_log :: "sprint \<Rightarrow> bool" where
  "one_running_log s = (\<forall>a \<in> set (map assigneeId (timeLogs s)). length (running_logs a s) \<le> 1)"

definition db_one_running_log :: "db \<Rightarrow> bool" where
  "db_one_running_log d = list_all one_running_log (Sprints d)"

section \<open>Example data\<close>

text \<open>
  One project with a planned sprint that lists issue 10, and issue 10 in review,
  assigned to employee 7.
\<close>

definition ex_issue :: issue where
  "ex_issue = \<lparr>issue_id = 10, issue_projectId = 100, issue_status = InReview,
               issue_assigneeId = Some 7, issue_sprintId = None, issue_timeSpent = 0,
               issue_isDeleted = False\<rparr>"

definition ex_sprint :: sprint where
  "ex_sprint = \<lparr>sprint_id = 1, projectId = 100, name = ''Sprint 1'', startDate = 0,
                endDate = 1000, status = Planned, issues = [10], createdAt = 0,
                updatedAt = 0, timeLogs = []\<rparr>"

definition ex_db :: db where
  "ex_db = \<lparr>Sprints = [ex_sprint], Issues = [ex_issue],
            Projects = [\<lparr>project_id = 100, project_isDeleted = False\<rparr>]\<rparr>"

text \<open>
  The same sprint once it is active and lists issues 10, 11 and 12 (in progress, to do
  and in review), with the time logs given: a finished log and a running log, both of
  employee 7 on issue 10.
\<close>

definition log_done :: time_log where
  "log_done = \<lparr>assigneeId = 7, issueId = 10, startTime = 1000, endTime = Some 4000,
                timeSpent = 3000\<rparr>"

definition log_running :: time_log where
  "log_running = \<lparr>assigneeId = 7, issueId = 10, startTime = 5000, endTime = None,
                   timeSpent = 0\<rparr>"

definition active_sprint :: "time_log list \<Rightarrow> sprint" where
  "active_sprint logs = ex_sprint\<lparr>status := Active, issues := [10, 11, 12], timeLogs := logs\<rparr>"

definition active_db :: "time_log list \<Rightarrow> db" where
  "active_db logs =
     \<lparr>Sprints = [active_sprint logs],
      Issues = [ex_issue\<lparr>issue_status := InProgress\<rparr>,
                ex_issue\<lparr>issue_id := 11, issue_status := ToDo\<rparr>,
                ex_issue\<lparr>issue_id := 12\<rparr>],
      Projects = [\<lparr>project_id = 100, project_isDeleted = False\<rparr>]\<rparr>"

text \<open>A running log of employee 8 on an issue 99 that no document has.\<close>

definition log_orphan :: time_log where
  "log_orphan = \<lparr>assigneeId = 8, issueId = 99, startTime = 6000, endTime = None,
                  timeSpent = 0\<rparr>"

text \<open>A running log of employee 171, whose id has letters among its digits.\<close>

definition log_ab :: time_log where
  "log_ab = \<lparr>assigneeId = 171, issueId = 10, startTime = 5000, endTime = None,
              timeSpent = 0\<rparr>"

text \<open>The longest log that can be stored: from the first Date to one millisecond before the last.\<close>

definition log_widest :: time_log where
  "log_widest = \<lparr>assigneeId = 7, issueId = 10, startTime = - 8640000000000000,
                  endTime = Some 8639999999999999, timeSpent = 0\<rparr>"

text \<open>A finished log of an hour and a half.\<close>

definition log_long :: time_log where
  "log_long = \<lparr>assigneeId = 8, issueId = 11, startTime = 4000, endTime = Some 5404000,
                timeSpent = 5400000\<rparr>"

text \<open>
  Three sprints of project 100: sprint 1 is planned and lists issue 10, sprint 2 is
  active and lists issue 11, sprint 3 is planned and lists issue 12. Project 200 has no
  sprint.
\<close>

definition plan_db :: db where
  "plan_db =
     \<lparr>Sprints = [ex_sprint,
                 ex_sprint\<lparr>sprint_id := 2, name := ''Sprint 2'', status := Active, issues := [11]\<rparr>,
                 ex_sprint\<lparr>sprint_id := 3, name := ''Sprint 3'', issues := [12]\<rparr>],
      Issues = [ex_issue, ex_issue\<lparr>issue_id := 11\<rparr>, ex_issue\<lparr>issue_id := 12\<rparr>],
      Projects = [\<lparr>project_id = 100, project_isDeleted = False\<rparr>,
                  \<lparr>project_id = 200, project_isDeleted = False\<rparr>]\<rparr>"

text \<open>
  A request body for \<open>POST /time-log/:sprintId\<close>: a log of employee 7 on issue 11
  with a start time and no end time.
\<close>

definition second_log :: time_log_body where
  "second_log = \<lparr>body_assigneeId = Some 7, body_issueId = Some 11, body_timeSpent = None,
                  body_startTime = Some 6000, body_endTime = None\<rparr>"

text \<open>
  The active sprint with issue 10 done, and a further done issue 13 that the sprint does
  not list.
\<close>

definition velocity_db :: db where
  "velocity_db =
     (active_db [log_done])\<lparr>Issues :=
        [ex_issue\<lparr>issue_status := Done\<rparr>,
         ex_issue\<lparr>issue_id := 11, issue_status := ToDo\<rparr>,
         ex_issue\<lparr>issue_id := 12\<rparr>,
         ex_issue\<lparr>issue_id := 13, issue_status := Done\<rparr>]\<rparr>"

lemmas ex_defs = ex_issue_def ex_sprint_def ex_db_def log_done_def log_running_def
  log_orphan_def log_ab_def log_widest_def log_long_def
  active_sprint_def active_db_def plan_db_def second_log_def velocity_db_def

section \<open>Facts about the store operations\<close>

lemma findById_SomeD: "findById key xs k = Some x \<Longrightarrow> key x = k \<and> x \<in> set xs"
  by (auto simp: findById_def find_Some_iff)

lemma findById_save:
  "findById key (save key x xs) k =
     (if k = key x then map_option (\<lambda>_. x) (findById key xs k) else findById key xs k)"
  by (induction xs) (auto simp: findById_def save_def)

lemma findById_save_found:
  assumes "findById key xs j = Some x"
  shows "findById key (save key x xs) k = findById key xs k"
proof -
  from assms have "key x = j" by (auto dest: findById_SomeD)
  with assms show ?thesis by (auto simp: findById_save)
qed

lemma findById_updateMany:
  assumes "\<And>i. issue_id (f i) = issue_id i"
  shows "findById issue_id (updateMany ids f xs) k =
     map_option (\<lambda>i. if k \<in> set ids then f i else i) (findById issue_id xs k)"
  using assms by (induction xs) (auto simp: findById_def updateMany_def)

lemma set_updateMany:
  "set (updateMany ids f xs) = (\<lambda>x. if issue_id x \<in> set ids then f x else x) ` set xs"
  by (simp add: updateMany_def)

text \<open>Assigning to the element that \<open>find\<close> returned changes that element and no other.\<close>

lemma find_update_first:
  "List.find P xs = Some x \<Longrightarrow>
     \<exists>ys zs. xs = ys @ x # zs \<and> (\<forall>y \<in> set ys. \<not> P y) \<and> update_first P f xs = ys @ f x # zs"
proof (induction xs)
  case Nil
  then show ?case by simp
next
  case (Cons y xs)
  show ?case
  proof (cases "P y")
    case True
    with Cons.prems have "y = x" by simp
    with True show ?thesis by (intro exI[of _ "[]"] exI[of _ xs]) simp
  next
    case False
    with Cons.prems have "List.find P xs = Some x" by simp
    from Cons.IH[OF this] obtain ys zs where
      "xs = ys @ x # zs" "\<forall>y \<in> set ys. \<not> P y" "update_first P f xs = ys @ f x # zs"
      by blast
    with False show ?thesis by (intro exI[of _ "y # ys"] exI[of _ zs]) simp
  qed
qed

section \<open>Starting a sprint\<close>

text \<open>
  C5. Start-sprint answers 404 ``Sprint not found or already started'' and changes
  nothing when the sprint is missing or its status is not planned (so also when it is
  active or completed). When the status is planned it succeeds: the stored sprint is the
  old one with status active, every stored issue whose id is in the sprint's issues has
  status to_do whatever it had before, and every other issue is as it was.
\<close>

theorem start_sprint_spec:
  "(findById sprint_id (Sprints d) sid = None \<longrightarrow>
      start_sprint d sid = (Response 404 ''Sprint not found or already started'' NoData, d))
   \<and> (\<forall>s. findById sprint_id (Sprints d) sid = Some s \<and> status s \<noteq> Planned \<longrightarrow>
      start_sprint d sid = (Response 404 ''Sprint not found or already started'' NoData, d))
   \<and> (\<forall>s. findById sprint_id (Sprints d) sid = Some s \<and> status s = Planned \<longrightarrow>
      (\<exists>d'. start_sprint d sid =
              (Response 201 ''sprint started and issues updated''
                 (SprintDoc (s\<lparr>status := Active\<rparr>)), d')
         \<and> findById sprint_id (Sprints d') sid = Some (s\<lparr>status := Active\<rparr>)
         \<and> (\<forall>i' \<in> set (Issues d'). issue_id i' \<in> set (issues s) \<longrightarrow> issue_status i' = ToDo)
         \<and> (\<forall>iid. findById issue_id (Issues d') iid =
               map_option (\<lambda>i. if iid \<in> set (issues s) then i\<lparr>issue_status := ToDo\<rparr> else i)
                 (findById issue_id (Issues d) iid))))"
proof (intro conjI allI impI)
  assume "findById sprint_id (Sprints d) sid = None"
  then show "start_sprint d sid =
      (Response 404 ''Sprint not found or already started'' NoData, d)"
    by (simp add: start_sprint_def)
next
  fix s
  assume "findById sprint_id (Sprints d) sid = Some s \<and> status s \<noteq> Planned"
  then show "start_sprint d sid =
      (Response 404 ''Sprint not found or already started'' NoData, d)"
    by (simp add: start_sprint_def)
next
  fix s
  assume a: "findById sprint_id (Sprints d) sid = Some s \<and> status s = Planned"
  then have k: "sprint_id s = sid" by (auto dest: findById_SomeD)
  let ?s = "s\<lparr>status := Active\<rparr>"
  let ?d = "d\<lparr>Sprints := save sprint_id ?s (Sprints d),
              Issues := updateMany (issues ?s) (\<lambda>i. i\<lparr>issue_status := ToDo\<rparr>) (Issues d)\<rparr>"
  have 1: "start_sprint d sid =
      (Response 201 ''sprint started and issues updated'' (SprintDoc ?s), ?d)"
    using a by (simp add: start_sprint_def Let_def)
  have 2: "findById sprint_id (Sprints ?d) sid = Some ?s"
    using a k by (simp add: findById_save)
  have 3: "\<forall>i' \<in> set (Issues ?d). issue_id i' \<in> set (issues s) \<longrightarrow> issue_status i' = ToDo"
    by (auto simp: set_updateMany)
  have 4: "\<forall>iid. findById issue_id (Issues ?d) iid =
               map_option (\<lambda>i. if iid \<in> set (issues s) then i\<lparr>issue_status := ToDo\<rparr> else i)
                 (findById issue_id (Issues d) iid)"
    by (simp add: findById_updateMany)
  from 1 2 3 4 show "\<exists>d'. start_sprint d sid =
              (Response 201 ''sprint started and issues updated''
                 (SprintDoc (s\<lparr>status := Active\<rparr>)), d')
         \<and> findById sprint_id (Sprints d') sid = Some (s\<lparr>status := Active\<rparr>)
         \<and> (\<forall>i' \<in> set (Issues d'). issue_id i' \<in> set (issues s) \<longrightarrow> issue_status i' = ToDo)
         \<and> (\<forall>iid. findById issue_id (Issues d') iid =
               map_option (\<lambda>i. if iid \<in> set (issues s) then i\<lparr>issue_status := ToDo\<rparr> else i)
                 (findById issue_id (Issues d) iid))"
    by blast
qed

text \<open>
  On the example: sprint 1 is planned and starts, which takes issue 10 from in_review
  to to_do; sprint 2 does not exist; and sprint 1, once active, does not start again.
\<close>

theorem start_sprint_spec_witness:
  "findById sprint_id (Sprints ex_db) 1 = Some ex_sprint \<and> status ex_sprint = Planned
   \<and> fst (start_sprint ex_db 1) =
       Response 201 ''sprint started and issues updated'' (SprintDoc (ex_sprint\<lparr>status := Active\<rparr>))
   \<and> findById issue_id (Issues (snd (start_sprint ex_db 1))) 10 =
       Some (ex_issue\<lparr>issue_status := ToDo\<rparr>)
   \<and> findById sprint_id (Sprints ex_db) 2 = None
   \<and> fst (start_sprint ex_db 2) = Response 404 ''Sprint not found or already started'' NoData
   \<and> fst (start_sprint (snd (start_sprint ex_db 1)) 1) =
       Response 404 ''Sprint not found or already started'' NoData"
proof -
  have h: "findById sprint_id (Sprints ex_db) 1 = Some ex_sprint \<and> status ex_sprint = Planned"
    by (simp add: ex_db_def ex_sprint_def findById_def)
  have i: "findById issue_id (Issues ex_db) 10 = Some ex_issue"
    by (simp add: ex_db_def ex_issue_def findById_def)
  have l: "(10::nat) \<in> set (issues ex_sprint)" by (simp add: ex_sprint_def)
  from h start_sprint_spec[of ex_db 1] obtain d' where
    r: "start_sprint ex_db 1 =
          (Response 201 ''sprint started and issues updated''
             (SprintDoc (ex_sprint\<lparr>status := Active\<rparr>)), d')"
    and s: "findById sprint_id (Sprints d') 1 = Some (ex_sprint\<lparr>status := Active\<rparr>)"
    and u: "\<forall>iid. findById issue_id (Issues d') iid =
               map_option (\<lambda>i. if iid \<in> set (issues ex_sprint) then i\<lparr>issue_status := ToDo\<rparr> else i)
                 (findById issue_id (Issues ex_db) iid)"
    by blast
  from u i l have 1: "findById issue_id (Issues d') 10 = Some (ex_issue\<lparr>issue_status := ToDo\<rparr>)"
    by simp
  have n: "findById sprint_id (Sprints ex_db) 2 = None"
    by (simp add: ex_db_def ex_sprint_def findById_def)
  with start_sprint_spec[of ex_db 2] have 2:
    "start_sprint ex_db 2 = (Response 404 ''Sprint not found or already started'' NoData, ex_db)"
    by blast
  have "status (ex_sprint\<lparr>status := Active\<rparr>) \<noteq> Planned" by simp
  with s start_sprint_spec[of d' 1] have 3:
    "start_sprint d' 1 = (Response 404 ''Sprint not found or already started'' NoData, d')"
    by blast
  from h r 1 n 2 3 show ?thesis by simp
qed

section \<open>Ending a sprint\<close>



text \<open>
  C3. For an existing sprint that is not completed and has a time log with no end time,
  end-sprint answers 400 ``unfinished time logs'', whatever the sprint's status is, and
  the database it leaves is the one it got: no sprint and no issue is changed.
\<close>

theorem end_sprint_unfinished:
  assumes "findById sprint_id (Sprints d) sid = Some s"
    and "status s \<noteq> Completed"
    and "\<exists>log \<in> set (timeLogs s). endTime log = None"
  shows "end_sprint now d sid =
    (Response 400
       ''Cannot end sprint as there are unfinished time logs. Please complete all tasks.''
       NoData, d)"
  using assms by (simp add: end_sprint_def)

text \<open>On the active example with a running log.\<close>

theorem end_sprint_unfinished_witness:
  "findById sprint_id (Sprints (active_db [log_done, log_running])) 1
     = Some (active_sprint [log_done, log_running])
   \<and> status (active_sprint [log_done, log_running]) \<noteq> Completed
   \<and> (\<exists>log \<in> set (timeLogs (active_sprint [log_done, log_running])). endTime log = None)
   \<and> end_sprint 9000 (active_db [log_done, log_running]) 1 =
       (Response 400
          ''Cannot end sprint as there are unfinished time logs. Please complete all tasks.''
          NoData, active_db [log_done, log_running])"
proof -
  have 1: "findById sprint_id (Sprints (active_db [log_done, log_running])) 1
     = Some (active_sprint [log_done, log_running])"
    by (simp add: ex_defs findById_def)
  have 2: "status (active_sprint [log_done, log_running]) \<noteq> Completed"
    by (simp add: ex_defs)
  have 3: "\<exists>log \<in> set (timeLogs (active_sprint [log_done, log_running])). endTime log = None"
    by (simp add: ex_defs)
  from 1 2 3 end_sprint_unfinished[OF 1 2 3, of 9000] show ?thesis by blast
qed

section \<open>Stopping a time log\<close>

text \<open>The ids of the examples, as \<open>toString()\<close> gives them.\<close>

lemma toString_7: "toString 7 = ''000000000000000000000007''"
  by code_simp

lemma toString_8: "toString 8 = ''000000000000000000000008''"
  by code_simp

lemma toString_171: "toString 171 = ''0000000000000000000000ab''"
  by code_simp

text \<open>
  What the stop route returns once the sprint and the assignee's running log are found.
  The issue, when it exists, is written back with its schema paths as they were loaded.
\<close>

lemma time_log_stop_found:
  assumes f: "findById sprint_id (Sprints d) sid = Some s"
    and l: "List.find (stop_match a) (timeLogs s) = Some log"
  shows "time_log_stop now d sid a =
      (Response 201 ''Time log stopped'' (TimeSpentInMs (now - startTime log)),
       d\<lparr>Issues := (case findById issue_id (Issues d) (issueId log) of
                       None \<Rightarrow> Issues d
                     | Some i \<Rightarrow> save issue_id i (Issues d)),
         Sprints := save sprint_id
            (s\<lparr>timeLogs := update_first (stop_match a)
                 (\<lambda>l. l\<lparr>endTime := Some now, timeSpent := now - startTime log\<rparr>) (timeLogs s)\<rparr>)
            (Sprints d)\<rparr>)"
  using f l
  by (simp add: time_log_stop_def Let_def issue_save_def hydrate_def split: option.split)

text \<open>
  Hence no stored issue is changed by a stop: the total that the handler assigns to
  \<open>totalTimeSpent\<close> lives on the document object only.
\<close>

lemma time_log_stop_issue_lookup:
  "findById issue_id (Issues (snd (time_log_stop now d sid a))) k = findById issue_id (Issues d) k"
  by (auto simp: time_log_stop_def Let_def issue_save_def hydrate_def findById_save_found
      split: option.split)

text \<open>
  What stop does by design when the scan finds a log: it takes the first match, answers
  201 with \<open>timeSpentInMs = now - startTime\<close>, and stores the sprint with that log's
  \<open>endTime\<close> set to \<open>now\<close> and its \<open>timeSpent\<close> to the same difference, every other
  log as it was. The difference is not negative exactly when the log did not start after
  \<open>now\<close>.
\<close>

lemma time_log_stop_running:
  assumes f: "findById sprint_id (Sprints d) sid = Some s"
    and l: "List.find (stop_match a) (timeLogs s) = Some log"
  shows "\<exists>d' ys zs.
      time_log_stop now d sid a =
        (Response 201 ''Time log stopped'' (TimeSpentInMs (now - startTime log)), d')
      \<and> toString (assigneeId log) = a \<and> endTime log = None
      \<and> timeLogs s = ys @ log # zs \<and> list_all (\<lambda>y. \<not> stop_match a y) ys
      \<and> findById sprint_id (Sprints d') sid =
          Some (s\<lparr>timeLogs :=
                  ys @ log\<lparr>endTime := Some now, timeSpent := now - startTime log\<rparr> # zs\<rparr>)
      \<and> (0 \<le> now - startTime log) = (startTime log \<le> now)"
proof -
  let ?f = "\<lambda>l. l\<lparr>endTime := Some now, timeSpent := now - startTime log\<rparr>"
  from find_update_first[OF l, of ?f] obtain ys zs where
    x: "timeLogs s = ys @ log # zs" and n: "\<forall>y \<in> set ys. \<not> stop_match a y"
    and u: "update_first (stop_match a) ?f (timeLogs s) = ys @ ?f log # zs"
    by blast
  from l have p: "stop_match a log" by (auto simp: find_Some_iff)
  from f have k: "sprint_id s = sid" by (auto dest: findById_SomeD)
  note r = time_log_stop_found[OF f l, of now]
  have "findById sprint_id (Sprints (snd (time_log_stop now d sid a))) sid =
      Some (s\<lparr>timeLogs := ys @ ?f log # zs\<rparr>)"
    using f k by (simp add: r findById_save u)
  with r x n p show ?thesis
    by (intro exI[of _ "snd (time_log_stop now d sid a)"] exI[of _ ys] exI[of _ zs])
       (simp add: stop_match_def list_all_iff)
qed

text \<open>
  C4. Stop sets the running log's \<open>endTime\<close>, computes and returns the time spent, and
  increases the issue's persisted cumulative total by it. On the active example the
  running log of employee 7 on issue 10, started at 5000, is stopped at 9000: the answer
  is 201 with 4000 ms, and the stored issue 10 is what it was before, with no total
  increased. The handler assigns \<open>totalTimeSpent\<close>, which IssueSchema does not declare,
  so \<open>save()\<close> writes nothing of it.
\<close>

theorem time_log_stop_total_not_stored:
  "findById sprint_id (Sprints (active_db [log_done, log_running])) 1
     = Some (active_sprint [log_done, log_running])
   \<and> List.find (stop_match ''000000000000000000000007'')
         (timeLogs (active_sprint [log_done, log_running])) = Some log_running
   \<and> fst (time_log_stop 9000 (active_db [log_done, log_running]) 1 ''000000000000000000000007'')
     = Response 201 ''Time log stopped'' (TimeSpentInMs 4000)
   \<and> findById issue_id (Issues (active_db [log_done, log_running])) 10
     = Some (ex_issue\<lparr>issue_status := InProgress\<rparr>)
   \<and> findById issue_id
         (Issues (snd (time_log_stop 9000 (active_db [log_done, log_running]) 1
            ''000000000000000000000007''))) 10
     = Some (ex_issue\<lparr>issue_status := InProgress\<rparr>)
   \<and> issue_timeSpent (ex_issue\<lparr>issue_status := InProgress\<rparr>) = 0
   \<and> Issues (snd (time_log_stop 9000 (active_db [log_done, log_running]) 1
         ''000000000000000000000007''))
     = Issues (active_db [log_done, log_running])"
  by (simp add: ex_defs findById_def stop_match_def toString_7 time_log_stop_def Let_def
        hydrate_def issue_save_def save_def)

text \<open>
  The time spent can be negative: a running log stored by \<open>POST /time-log/:sprintId\<close>
  with the start time 5000 it was given, stopped when the clock reads 4000.
\<close>

lemma time_log_stop_negative:
  "add_time_log (active_db [log_done]) 1
       \<lparr>body_assigneeId = Some 7, body_issueId = Some 10, body_timeSpent = None,
        body_startTime = Some 5000, body_endTime = None\<rparr>
     = (Response 200 []
          (TimeLogData \<lparr>body_assigneeId = Some 7, body_issueId = Some 10, body_timeSpent = None,
             body_startTime = Some 5000, body_endTime = None\<rparr>),
        active_db [log_done, log_running])
   \<and> fst (time_log_stop 4000 (active_db [log_done, log_running]) 1 ''000000000000000000000007'')
     = Response 201 ''Time log stopped'' (TimeSpentInMs (- 1000))"
  by (simp add: ex_defs findById_def stop_match_def toString_7 time_log_stop_def
        add_time_log_def Let_def hydrate_def issue_save_def save_def)

text \<open>
  The scan compares texts: the running log of employee 171, whose id reads
  \<open>...ab\<close>, is found for the lower-case spelling and not for the upper-case one.
\<close>

lemma time_log_stop_spelling:
  "fst (time_log_stop 9000 (active_db [log_ab]) 1 ''0000000000000000000000ab'')
     = Response 201 ''Time log stopped'' (TimeSpentInMs 4000)
   \<and> time_log_stop 9000 (active_db [log_ab]) 1 ''0000000000000000000000AB''
     = (Response 404 ''No active time-log found'' NoData, active_db [log_ab])"
  by (simp add: ex_defs findById_def stop_match_def toString_171 time_log_stop_def Let_def
        hydrate_def issue_save_def save_def)

text \<open>
  C10. When the scan finds the assignee's running log and its issue does not resolve,
  stop still answers 201 with
  \<open>timeSpentInMs\<close>, the log's \<open>endTime\<close> and \<open>timeSpent\<close> are stored on the sprint
  as above, and the issue collection is left as it was.
\<close>

theorem time_log_stop_missing_issue:
  assumes f: "findById sprint_id (Sprints d) sid = Some s"
    and l: "List.find (stop_match a) (timeLogs s) = Some log"
    and m: "findById issue_id (Issues d) (issueId log) = None"
  shows "\<exists>d' ys zs.
      time_log_stop now d sid a =
        (Response 201 ''Time log stopped'' (TimeSpentInMs (now - startTime log)), d')
      \<and> timeLogs s = ys @ log # zs \<and> list_all (\<lambda>y. \<not> stop_match a y) ys
      \<and> findById sprint_id (Sprints d') sid =
          Some (s\<lparr>timeLogs :=
                  ys @ log\<lparr>endTime := Some now, timeSpent := now - startTime log\<rparr> # zs\<rparr>)
      \<and> Issues d' = Issues d"
proof -
  let ?f = "\<lambda>l. l\<lparr>endTime := Some now, timeSpent := now - startTime log\<rparr>"
  from find_update_first[OF l, of ?f] obtain ys zs where
    x: "timeLogs s = ys @ log # zs" and n: "\<forall>y \<in> set ys. \<not> stop_match a y"
    and u: "update_first (stop_match a) ?f (timeLogs s) = ys @ ?f log # zs"
    by blast
  from f have k: "sprint_id s = sid" by (auto dest: findById_SomeD)
  note r = time_log_stop_found[OF f l, of now]
  have 1: "findById sprint_id (Sprints (snd (time_log_stop now d sid a))) sid =
      Some (s\<lparr>timeLogs := ys @ ?f log # zs\<rparr>)"
    using f k by (simp add: r findById_save u)
  have 2: "Issues (snd (time_log_stop now d sid a)) = Issues d"
    using m by (simp add: r)
  from r x n 1 2 show ?thesis
    by (intro exI[of _ "snd (time_log_stop now d sid a)"] exI[of _ ys] exI[of _ zs])
       (simp add: list_all_iff)
qed

text \<open>On the active example with the running log of employee 8 on the missing issue 99.\<close>

theorem time_log_stop_missing_issue_witness:
  "findById sprint_id (Sprints (active_db [log_done, log_orphan])) 1
     = Some (active_sprint [log_done, log_orphan])
   \<and> List.find (stop_match ''000000000000000000000008'')
         (timeLogs (active_sprint [log_done, log_orphan])) = Some log_orphan
   \<and> findById issue_id (Issues (active_db [log_done, log_orphan])) (issueId log_orphan) = None
   \<and> fst (time_log_stop 9000 (active_db [log_done, log_orphan]) 1 ''000000000000000000000008'')
     = Response 201 ''Time log stopped'' (TimeSpentInMs 3000)
   \<and> Issues (snd (time_log_stop 9000 (active_db [log_done, log_orphan]) 1 ''000000000000000000000008''))
     = Issues (active_db [log_done, log_orphan])"
proof -
  have 1: "findById sprint_id (Sprints (active_db [log_done, log_orphan])) 1
     = Some (active_sprint [log_done, log_orphan])"
    by (simp add: ex_defs findById_def)
  have 2: "List.find (stop_match ''000000000000000000000008'')
         (timeLogs (active_sprint [log_done, log_orphan]))
     = Some log_orphan"
    by (simp add: ex_defs stop_match_def toString_7 toString_8)
  have 3: "findById issue_id (Issues (active_db [log_done, log_orphan])) (issueId log_orphan) = None"
    by (simp add: ex_defs findById_def)
  from time_log_stop_missing_issue[OF 1 2 3, of 9000] obtain d' where
    r: "time_log_stop 9000 (active_db [log_done, log_orphan]) 1 ''000000000000000000000008'' =
       (Response 201 ''Time log stopped'' (TimeSpentInMs (9000 - startTime log_orphan)), d')"
    and i: "Issues d' = Issues (active_db [log_done, log_orphan])"
    by blast
  from r have "fst (time_log_stop 9000 (active_db [log_done, log_orphan]) 1 ''000000000000000000000008'')
     = Response 201 ''Time log stopped'' (TimeSpentInMs 3000)"
    by (simp add: log_orphan_def)
  moreover from r i have "Issues (snd (time_log_stop 9000 (active_db [log_done, log_orphan]) 1 ''000000000000000000000008''))
     = Issues (active_db [log_done, log_orphan])"
    by simp
  ultimately show ?thesis using 1 2 3 by blast
qed

section \<open>Adding an issue to a sprint\<close>

text \<open>
  C6, as the code has it. For an existing sprint and an existing issue that is not
  deleted: add-to-sprint answers 409 and changes nothing when the issue is already in
  this sprint's issues, or when another sprint that is active lists it. Otherwise (also
  when only planned sprints list it) it answers 201, the stored sprint has the issue
  appended to its issues, and the stored issue is the old one with status to_do: its
  \<open>sprintId\<close> is what it was.
\<close>

theorem add_to_sprint_spec:
  assumes f: "findById sprint_id (Sprints d) sid = Some s"
    and g: "findById issue_id (Issues d) iid = Some i"
    and n: "\<not> issue_isDeleted i"
  shows "(iid \<in> set (issues s) \<longrightarrow>
            add_to_sprint d iid sid =
              (Response 409 ''This Issue already added to this sprint'' NoData, d))
     \<and> (iid \<notin> set (issues s) \<and> isInOtherSprint d sid iid \<longrightarrow>
            add_to_sprint d iid sid =
              (Response 409 ''Issue is already part of another active sprint'' NoData, d))
     \<and> (iid \<notin> set (issues s) \<and> \<not> isInOtherSprint d sid iid \<longrightarrow>
          (\<exists>d'. add_to_sprint d iid sid =
                  (Response 201 ''Issue added to the sprint and status updated to to_do''
                     (SprintDoc (s\<lparr>issues := issues s @ [iid]\<rparr>)), d')
             \<and> findById sprint_id (Sprints d') sid = Some (s\<lparr>issues := issues s @ [iid]\<rparr>)
             \<and> findById issue_id (Issues d') iid = Some (i\<lparr>issue_status := ToDo\<rparr>)
             \<and> issue_sprintId (i\<lparr>issue_status := ToDo\<rparr>) = issue_sprintId i))"
proof -
  from f have k: "sprint_id s = sid" by (auto dest: findById_SomeD)
  from g have j: "issue_id i = iid" by (auto dest: findById_SomeD)
  have 1: "iid \<in> set (issues s) \<longrightarrow>
            add_to_sprint d iid sid =
              (Response 409 ''This Issue already added to this sprint'' NoData, d)"
    using f g n j by (simp add: add_to_sprint_def)
  have 2: "iid \<notin> set (issues s) \<and> isInOtherSprint d sid iid \<longrightarrow>
            add_to_sprint d iid sid =
              (Response 409 ''Issue is already part of another active sprint'' NoData, d)"
    using f g n j by (simp add: add_to_sprint_def)
  have 3: "iid \<notin> set (issues s) \<and> \<not> isInOtherSprint d sid iid \<longrightarrow>
          (\<exists>d'. add_to_sprint d iid sid =
                  (Response 201 ''Issue added to the sprint and status updated to to_do''
                     (SprintDoc (s\<lparr>issues := issues s @ [iid]\<rparr>)), d')
             \<and> findById sprint_id (Sprints d') sid = Some (s\<lparr>issues := issues s @ [iid]\<rparr>)
             \<and> findById issue_id (Issues d') iid = Some (i\<lparr>issue_status := ToDo\<rparr>)
             \<and> issue_sprintId (i\<lparr>issue_status := ToDo\<rparr>) = issue_sprintId i)"
    using f g n j k by (simp add: add_to_sprint_def Let_def findById_save)
  from 1 2 3 show ?thesis by blast
qed

text \<open>
  On the three sprints: issue 12, listed only by the planned sprint 3, is added to
  sprint 1; issue 10 is already in sprint 1; issue 11 is in the active sprint 2.
\<close>

theorem add_to_sprint_spec_witness:
  "findById sprint_id (Sprints plan_db) 1 = Some ex_sprint
   \<and> findById issue_id (Issues plan_db) 12 = Some (ex_issue\<lparr>issue_id := 12\<rparr>)
   \<and> \<not> issue_isDeleted (ex_issue\<lparr>issue_id := 12\<rparr>)
   \<and> 12 \<notin> set (issues ex_sprint) \<and> \<not> isInOtherSprint plan_db 1 12
   \<and> fst (add_to_sprint plan_db 12 1) =
       Response 201 ''Issue added to the sprint and status updated to to_do''
         (SprintDoc (ex_sprint\<lparr>issues := [10, 12]\<rparr>))
   \<and> 10 \<in> set (issues ex_sprint)
   \<and> add_to_sprint plan_db 10 1 =
       (Response 409 ''This Issue already added to this sprint'' NoData, plan_db)
   \<and> 11 \<notin> set (issues ex_sprint) \<and> isInOtherSprint plan_db 1 11
   \<and> add_to_sprint plan_db 11 1 =
       (Response 409 ''Issue is already part of another active sprint'' NoData, plan_db)"
proof -
  have f: "findById sprint_id (Sprints plan_db) 1 = Some ex_sprint"
    by (simp add: ex_defs findById_def)
  have g12: "findById issue_id (Issues plan_db) 12 = Some (ex_issue\<lparr>issue_id := 12\<rparr>)"
    and g10: "findById issue_id (Issues plan_db) 10 = Some ex_issue"
    and g11: "findById issue_id (Issues plan_db) 11 = Some (ex_issue\<lparr>issue_id := 11\<rparr>)"
    by (simp_all add: ex_defs findById_def)
  have n12: "\<not> issue_isDeleted (ex_issue\<lparr>issue_id := 12\<rparr>)"
    and n10: "\<not> issue_isDeleted ex_issue"
    and n11: "\<not> issue_isDeleted (ex_issue\<lparr>issue_id := 11\<rparr>)"
    by (simp_all add: ex_defs)
  have c12: "12 \<notin> set (issues ex_sprint) \<and> \<not> isInOtherSprint plan_db 1 12"
    and c10: "10 \<in> set (issues ex_sprint)"
    and c11: "11 \<notin> set (issues ex_sprint) \<and> isInOtherSprint plan_db 1 11"
    by (simp_all add: ex_defs isInOtherSprint_def)
  from add_to_sprint_spec[OF f g12 n12] c12 obtain d' where
    "add_to_sprint plan_db 12 1 =
       (Response 201 ''Issue added to the sprint and status updated to to_do''
          (SprintDoc (ex_sprint\<lparr>issues := issues ex_sprint @ [12]\<rparr>)), d')"
    by blast
  then have r12: "fst (add_to_sprint plan_db 12 1) =
       Response 201 ''Issue added to the sprint and status updated to to_do''
         (SprintDoc (ex_sprint\<lparr>issues := [10, 12]\<rparr>))"
    by (simp add: ex_sprint_def)
  from add_to_sprint_spec[OF f g10 n10] c10 have r10: "add_to_sprint plan_db 10 1 =
       (Response 409 ''This Issue already added to this sprint'' NoData, plan_db)"
    by blast
  from add_to_sprint_spec[OF f g11 n11] c11 have r11: "add_to_sprint plan_db 11 1 =
       (Response 409 ''Issue is already part of another active sprint'' NoData, plan_db)"
    by blast
  from f g12 n12 c12 r12 c10 r10 c11 r11 show ?thesis by blast
qed

text \<open>
  After issue 12 was added to sprint 1 with success, the stored issue has no
  \<open>sprintId\<close>: the handler never assigns that path.
\<close>

theorem add_to_sprint_sprintId_unset:
  "findById sprint_id (Sprints plan_db) 1 = Some ex_sprint
   \<and> findById issue_id (Issues plan_db) 12 = Some (ex_issue\<lparr>issue_id := 12\<rparr>)
   \<and> \<not> issue_isDeleted (ex_issue\<lparr>issue_id := 12\<rparr>)
   \<and> 12 \<notin> set (issues ex_sprint) \<and> \<not> isInOtherSprint plan_db 1 12
   \<and> code (fst (add_to_sprint plan_db 12 1)) = 201
   \<and> findById issue_id (Issues (snd (add_to_sprint plan_db 12 1))) 12 =
       Some (ex_issue\<lparr>issue_id := 12, issue_status := ToDo\<rparr>)
   \<and> issue_sprintId (ex_issue\<lparr>issue_id := 12, issue_status := ToDo\<rparr>) = None
   \<and> issue_sprintId (ex_issue\<lparr>issue_id := 12, issue_status := ToDo\<rparr>) \<noteq> Some 1"
  by (simp add: ex_defs findById_def isInOtherSprint_def add_to_sprint_def
        Let_def save_def)

section \<open>Creating a sprint\<close>




section \<open>The total-time query\<close>

subsection \<open>Where the doubles are exact\<close>

lemma ilog2_bounds: "0 < n \<Longrightarrow> 2 ^ ilog2 n \<le> n \<and> n < 2 ^ Suc (ilog2 n)"
proof (induction n rule: ilog2.induct)
  case (1 n)
  show ?case
  proof (cases "n < 2")
    case True
    with "1.prems" show ?thesis by (simp add: ilog2.simps)
  next
    case False
    then have "0 < n div 2" by simp
    with "1.IH" False have "2 ^ ilog2 (n div 2) \<le> n div 2 \<and> n div 2 < 2 ^ Suc (ilog2 (n div 2))"
      by simp
    with False show ?thesis by (simp add: ilog2.simps[of n]) linarith
  qed
qed

lemma ilog2_int:
  fixes k :: int
  assumes "1 \<le> k"
  shows "2 ^ ilog2 (nat k) \<le> k"
proof -
  from assms have "0 < nat k" by simp
  from ilog2_bounds[OF this] have "(2::nat) ^ ilog2 (nat k) \<le> nat k" by simp
  then have "int ((2::nat) ^ ilog2 (nat k)) \<le> int (nat k)" by (simp only: of_nat_le_iff)
  with assms show ?thesis by simp
qed

lemma round_div_cases:
  "round_div p q = p div q \<and> 2 * (p mod q) \<le> q
   \<or> round_div p q = p div q + 1 \<and> q \<le> 2 * (p mod q)"
  by (auto simp: round_div_def Let_def)

lemma fl_exact: "\<bar>k\<bar> \<le> 2 ^ 53 \<Longrightarrow> fl k = k"
  by (simp add: fl_def)

lemma div_between:
  fixes x k N :: int
  assumes "k * N \<le> x" and "x < k * N + N"
  shows "x div N = k"
proof -
  from assms have N: "0 < N" by linarith
  define y where "y = x - k * N"
  have y: "0 \<le> y" "y < N" using assms by (simp_all add: y_def)
  have "x = y + k * N" by (simp add: y_def)
  then have "x div N = (y + k * N) div N" by simp
  also have "\<dots> = k + y div N" using N by simp
  also have "y div N = 0" using y by simp
  finally show ?thesis by simp
qed

text \<open>The quotient and remainder of a scaled dividend, from those of the dividend.\<close>

lemma scaled_decomp:
  fixes a b N :: int
  assumes a: "0 \<le> a" and b: "0 < b" and N: "0 < N"
  obtains d t where "(a * N) div b = (a div b) * N + d" and "(a * N) mod b = t"
    and "0 \<le> d" and "d < N" and "0 \<le> t" and "t < b" and "(a mod b) * N = d * b + t"
proof -
  define r where "r = a mod b"
  define d where "d = (r * N) div b"
  define t where "t = (r * N) mod b"
  have r: "0 \<le> r" "r < b" using b by (simp_all add: r_def)
  have t: "0 \<le> t" "t < b" using b by (simp_all add: t_def)
  have rn: "r * N = d * b + t" by (simp add: d_def t_def)
  have d0: "0 \<le> d" using r N b by (simp add: d_def pos_imp_zdiv_nonneg_iff)
  have "r * N < N * b" using r N by (simp add: mult.commute)
  with rn t have "d * b < N * b" by linarith
  with b have dN: "d < N" by (simp add: mult_less_cancel_right_pos)
  have "r * N + ((a div b) * N) * b = (a div b * b + r) * N"
    by (simp only: algebra_simps)
  also have "\<dots> = a * N" by (simp add: r_def)
  finally have e: "a * N = r * N + ((a div b) * N) * b" by simp
  have 1: "(a * N) div b = (a div b) * N + d"
    using b by (subst e) (simp add: d_def)
  have 2: "(a * N) mod b = t"
    by (subst e) (simp add: t_def)
  from 1 2 d0 dN t rn show thesis by (intro that[of d t]) (simp_all add: r_def)
qed

text \<open>
  With a scale \<open>N\<close> above half the divisor, rounding the scaled quotient never reaches
  the next whole number: the floor of the rounded quotient is the floor of the exact one.
\<close>

lemma round_scaled_floor:
  fixes a b N :: int
  assumes a: "0 \<le> a" and b: "0 < b" and N: "0 < N" and s: "b < 2 * N"
  shows "round_div (a * N) b div N = a div b"
proof -
  from scaled_decomp[OF a b N] obtain d t where
    q: "(a * N) div b = (a div b) * N + d" "(a * N) mod b = t"
    and d: "0 \<le> d" "d < N" and t: "0 \<le> t" "t < b" and rn: "(a mod b) * N = d * b + t"
    by blast
  have r: "a mod b \<le> b - 1" using b by simp
  have "(a div b) * N \<le> round_div (a * N) b \<and> round_div (a * N) b < (a div b) * N + N"
  proof -
    from round_div_cases[of "a * N" b] show ?thesis
    proof
      assume "round_div (a * N) b = a * N div b \<and> 2 * (a * N mod b) \<le> b"
      with q d show ?thesis by simp
    next
      assume h: "round_div (a * N) b = a * N div b + 1 \<and> b \<le> 2 * (a * N mod b)"
      have "d + 1 < N"
      proof (rule ccontr)
        assume "\<not> d + 1 < N"
        with d have dd: "d = N - 1" by simp
        from h q have "b \<le> 2 * t" by simp
        then have 1: "(2 * N - 1) * b \<le> 2 * ((a mod b) * N)"
          using rn dd by (simp add: algebra_simps)
        have "(a mod b) * N \<le> (b - 1) * N" using r N by (simp add: mult_right_mono)
        with 1 have "(2 * N - 1) * b \<le> 2 * ((b - 1) * N)" by linarith
        then have "2 * N \<le> b" by (simp add: algebra_simps)
        with s show False by simp
      qed
      with h q d show ?thesis by simp
    qed
  qed
  then show ?thesis by (intro div_between) simp_all
qed

text \<open>The same for the ceiling, which is what the floor of a negative quotient needs.\<close>

lemma round_scaled_ceil:
  fixes a b N :: int
  assumes a: "0 \<le> a" and b: "0 < b" and N: "0 < N" and s: "b < 2 * N"
  shows "(round_div (a * N) b + N - 1) div N = (a + b - 1) div b"
proof -
  from scaled_decomp[OF a b N] obtain d t where
    q: "(a * N) div b = (a div b) * N + d" "(a * N) mod b = t"
    and d: "0 \<le> d" "d < N" and t: "0 \<le> t" "t < b" and rn: "(a mod b) * N = d * b + t"
    by blast
  define k where "k = a div b"
  define r where "r = a mod b"
  have akr: "a = k * b + r" by (simp add: k_def r_def)
  have kb: "(k + 1) * b = k * b + b" by (simp add: algebra_simps)
  have r0: "0 \<le> r" "r < b" using b by (simp_all add: r_def)
  show ?thesis
  proof (cases "r = 0")
    case True
    with rn have z: "d * b + t = 0" by (simp add: r_def)
    have "0 \<le> d * b" using d b by simp
    with z t have t0: "t = 0" and "d * b = 0" by linarith+
    with b have d0: "d = 0" by simp
    from q t0 d0 b have "round_div (a * N) b = k * N"
      by (simp add: round_div_def Let_def k_def)
    then have 1: "(round_div (a * N) b + N - 1) div N = k"
      using N by (intro div_between) simp_all
    from True akr b have "k * b \<le> a + b - 1 \<and> a + b - 1 < k * b + b" by linarith
    then have "(a + b - 1) div b = k" by (intro div_between) simp_all
    with 1 show ?thesis by simp
  next
    case False
    with r0 have r1: "1 \<le> r" by linarith
    have lo: "k * N < round_div (a * N) b"
    proof (cases "d = 0")
      case False
      with d have "1 \<le> d" by simp
      with round_div_cases[of "a * N" b] q show ?thesis by (auto simp: k_def)
    next
      case True
      with rn have tr: "t = r * N" by (simp add: r_def)
      have "1 * N \<le> r * N" using r1 N by (intro mult_right_mono) simp_all
      with tr have "N \<le> t" by simp
      with s have "b < 2 * t" by simp
      with q have "round_div (a * N) b = (a * N) div b + 1"
        by (simp add: round_div_def Let_def)
      with q d show ?thesis by (simp add: k_def)
    qed
    have hi: "round_div (a * N) b \<le> k * N + N"
      using round_div_cases[of "a * N" b] q d by (auto simp: k_def)
    have kn: "(k + 1) * N = k * N + N" by (simp add: algebra_simps)
    from lo hi kn have "(k + 1) * N \<le> round_div (a * N) b + N - 1
        \<and> round_div (a * N) b + N - 1 < (k + 1) * N + N"
      by linarith
    then have 1: "(round_div (a * N) b + N - 1) div N = k + 1"
      by (intro div_between) simp_all
    from akr r1 r0 kb have "(k + 1) * b \<le> a + b - 1 \<and> a + b - 1 < (k + 1) * b + b"
      by linarith
    then have "(a + b - 1) div b = k + 1" by (intro div_between) simp_all
    with 1 show ?thesis by simp
  qed
qed

lemma neg_div_ceil:
  fixes c b :: int
  assumes "0 < b"
  shows "(- c) div b = - ((c + b - 1) div b)"
proof -
  define k where "k = (c + b - 1) div b"
  define r where "r = (c + b - 1) mod b"
  have r: "0 \<le> r" "r < b" using assms by (simp_all add: r_def)
  have e: "c + b - 1 = k * b + r" by (simp add: k_def r_def)
  have m: "(- k) * b = - (k * b)" by simp
  from e r m have "(- k) * b \<le> - c \<and> - c < (- k) * b + b" by linarith
  then have "(- c) div b = - k" by (intro div_between) simp_all
  then show ?thesis by (simp add: k_def)
qed

text \<open>
  The exponent that \<open>floor_quot\<close> finds for a dividend of at most \<open>2 ^ 53\<close> leaves a
  scale \<open>N\<close> with \<open>b < 2 * N\<close>, when the divisor is above 2 and no power of two.
\<close>

lemma exponent_small:
  fixes a b :: int
  assumes a: "a \<le> 2 ^ 53" and ab: "b \<le> a" and b: "2 < b" and np: "\<forall>j. b \<noteq> 2 ^ j"
  shows "ilog2 (nat (a div b)) < 52 \<and> b < 2 * 2 ^ (52 - ilog2 (nat (a div b)))"
proof -
  define e where "e = ilog2 (nat (a div b))"
  have "b div b \<le> a div b" using ab b by (intro zdiv_mono1) simp_all
  with b have "1 \<le> a div b" by simp
  from ilog2_int[OF this] have p: "2 ^ e \<le> a div b" by (simp add: e_def)
  have "a = b * (a div b) + a mod b" by simp
  moreover have "0 \<le> a mod b" using b by simp
  ultimately have "b * (a div b) \<le> a" by linarith
  moreover have "b * 2 ^ e \<le> b * (a div b)" using p b by (simp add: mult_left_mono)
  ultimately have be: "b * 2 ^ e \<le> 2 ^ 53" using a by linarith
  have e52: "e < 52"
  proof (rule ccontr)
    assume "\<not> e < 52"
    then have "(2::int) ^ 52 \<le> 2 ^ e" by (intro power_increasing) simp_all
    then have "3 * (2::int) ^ 52 \<le> b * 2 ^ e" using b by (intro mult_mono) simp_all
    with be show False by simp
  qed
  then have "53 = (53 - e) + e" by simp
  then have "(2::int) ^ 53 = 2 ^ (53 - e) * 2 ^ e" by (metis power_add)
  with be have "b * 2 ^ e \<le> 2 ^ (53 - e) * 2 ^ e" by simp
  then have "b \<le> 2 ^ (53 - e)" by (simp add: mult_le_cancel_right)
  with np have "b < 2 ^ (53 - e)" by (metis order_le_less)
  moreover from e52 have "53 - e = Suc (52 - e)" by simp
  ultimately have "b < 2 * 2 ^ (52 - e)" by simp
  with e52 show ?thesis by (simp add: e_def)
qed

text \<open>
  So for a dividend of at most \<open>2 ^ 53\<close> in magnitude, \<open>Math.floor(a / b)\<close> is the floor
  of the exact quotient.
\<close>

lemma floor_quot_exact:
  fixes a b :: int
  assumes a: "\<bar>a\<bar> \<le> 2 ^ 53" and b: "2 < b" "b < 2 ^ 54" and np: "\<forall>j. b \<noteq> 2 ^ j"
  shows "floor_quot a b = a div b"
proof -
  consider "a = 0" | "0 < a" "a < b" | "0 < a" "b \<le> a" | "a < 0" "- a < b" | "a < 0" "b \<le> - a"
    by linarith
  then show ?thesis
  proof cases
    case 1
    then show ?thesis by (simp add: floor_quot_def)
  next
    case 2
    then have "1 \<le> b - a" by simp
    then have "(2::int) ^ 54 * 1 \<le> 2 ^ 54 * (b - a)" by (intro mult_left_mono) simp_all
    with b have "\<not> 2 ^ 54 * (b - a) \<le> b" by simp
    with 2 show ?thesis by (simp add: floor_quot_def)
  next
    case 3
    from a 3 have "a \<le> 2 ^ 53" by simp
    from exponent_small[OF this 3(2) b(1) np] have
      e: "ilog2 (nat (a div b)) < 52" and s: "b < 2 * 2 ^ (52 - ilog2 (nat (a div b)))"
      by simp_all
    have "round_div (a * 2 ^ (52 - ilog2 (nat (a div b)))) b div 2 ^ (52 - ilog2 (nat (a div b)))
        = a div b"
      using 3 b s by (intro round_scaled_floor) simp_all
    with 3 e show ?thesis by (simp add: floor_quot_def Let_def)
  next
    case 4
    then have "- b \<le> a \<and> a < - b + b" by simp
    then have "(- 1) * b \<le> a \<and> a < (- 1) * b + b" by simp
    then have "a div b = - 1" by (rule_tac div_between) simp_all
    with 4 show ?thesis by (simp add: floor_quot_def Let_def)
  next
    case 5
    define c where "c = - a"
    from a 5 have c: "c \<le> 2 ^ 53" "b \<le> c" "0 \<le> c" by (simp_all add: c_def)
    from exponent_small[OF c(1) c(2) b(1) np] have
      e: "ilog2 (nat (c div b)) < 52" and s: "b < 2 * 2 ^ (52 - ilog2 (nat (c div b)))"
      by simp_all
    have "(round_div (c * 2 ^ (52 - ilog2 (nat (c div b)))) b
            + 2 ^ (52 - ilog2 (nat (c div b))) - 1) div 2 ^ (52 - ilog2 (nat (c div b)))
        = (c + b - 1) div b"
      using c b s by (intro round_scaled_ceil) simp_all
    moreover have "a div b = - ((c + b - 1) div b)"
      using neg_div_ceil[of b c] b by (simp add: c_def)
    ultimately show ?thesis using 5 e c by (simp add: floor_quot_def Let_def c_def)
  qed
qed

lemma not_power_3600000: "\<forall>j. (3600000::int) \<noteq> 2 ^ j"
proof
  fix j :: nat
  show "(3600000::int) \<noteq> 2 ^ j"
  proof (cases "j \<le> 21")
    case True
    then have "(2::int) ^ j \<le> 2 ^ 21" by (intro power_increasing) simp_all
    then show ?thesis by simp
  next
    case False
    then have "(2::int) ^ 22 \<le> 2 ^ j" by (intro power_increasing) simp_all
    then show ?thesis by simp
  qed
qed

lemma not_power_60000: "\<forall>j. (60000::int) \<noteq> 2 ^ j"
proof
  fix j :: nat
  show "(60000::int) \<noteq> 2 ^ j"
  proof (cases "j \<le> 15")
    case True
    then have "(2::int) ^ j \<le> 2 ^ 15" by (intro power_increasing) simp_all
    then show ?thesis by simp
  next
    case False
    then have "(2::int) ^ 16 \<le> 2 ^ j" by (intro power_increasing) simp_all
    then show ?thesis by simp
  qed
qed

lemma js_rem_nonneg: "0 \<le> a \<Longrightarrow> 0 < b \<Longrightarrow> js_rem a b = a mod b"
  by (cases "a = 0") (simp_all add: js_rem_def)

lemma js_rem_small: "\<bar>js_rem a 3600000\<bar> \<le> 2 ^ 53"
proof -
  have "\<bar>js_rem a 3600000\<bar> = \<bar>a\<bar> mod 3600000"
    by (cases "a = 0") (simp_all add: js_rem_def abs_mult)
  moreover have "\<bar>a\<bar> mod 3600000 < 3600000" by simp
  ultimately show ?thesis by simp
qed

subsection \<open>The sum\<close>

lemma abs_total_nonneg: "0 \<le> abs_total logs"
  by (induction logs) (simp_all add: abs_total_def)

lemma abs_total_Cons:
  "abs_total (l # logs) =
     (case endTime l of None \<Rightarrow> 0 | Some e \<Rightarrow> \<bar>e - startTime l\<bar>) + abs_total logs"
  by (cases "endTime l") (simp_all add: abs_total_def)

lemma spec_total_Cons:
  "spec_total (l # logs) =
     (case endTime l of None \<Rightarrow> 0 | Some e \<Rightarrow> e - startTime l) + spec_total logs"
  by (cases "endTime l") (simp_all add: spec_total_def)

lemma spec_total_le_abs: "\<bar>spec_total logs\<bar> \<le> abs_total logs"
proof (induction logs)
  case Nil
  show ?case by (simp add: spec_total_def abs_total_def)
next
  case (Cons l logs)
  then show ?case
    by (cases "endTime l") (simp_all add: spec_total_Cons abs_total_Cons)
qed

text \<open>While the lengths stay within \<open>2 ^ 53\<close>, the loop adds exactly.\<close>

lemma foldl_add_log:
  "\<bar>t\<bar> + abs_total logs \<le> 2 ^ 53 \<Longrightarrow> foldl add_log t logs = t + spec_total logs"
proof (induction logs arbitrary: t)
  case Nil
  show ?case by (simp add: spec_total_def)
next
  case (Cons l logs)
  show ?case
  proof (cases "endTime l")
    case None
    with Cons.prems have "\<bar>t\<bar> + abs_total logs \<le> 2 ^ 53" by (simp add: abs_total_Cons)
    from Cons.IH[OF this] None show ?thesis by (simp add: add_log_def spec_total_Cons)
  next
    case (Some e)
    from Cons.prems Some have p: "\<bar>t\<bar> + \<bar>e - startTime l\<bar> + abs_total logs \<le> 2 ^ 53"
      by (simp add: abs_total_Cons)
    have n: "0 \<le> abs_total logs" by (rule abs_total_nonneg)
    from p n have 1: "fl (e - startTime l) = e - startTime l" by (intro fl_exact) linarith
    from p n have 2: "fl (t + (e - startTime l)) = t + (e - startTime l)"
      by (intro fl_exact) linarith
    from 1 2 Some have a: "add_log t l = t + (e - startTime l)"
      by (simp add: add_log_def Let_def)
    from p have "\<bar>t + (e - startTime l)\<bar> + abs_total logs \<le> 2 ^ 53" by linarith
    from Cons.IH[OF this] a Some show ?thesis by (simp add: spec_total_Cons)
  qed
qed

text \<open>
  C8, as the code has it. A sprint with no time log gets 404 and no total. For a sprint
  with at least one time log, whose finished logs' lengths add up to at most \<open>2 ^ 53\<close> ms,
  total-time answers 200 with \<open>totalTimeMs\<close> the sum of \<open>endTime - startTime\<close> over the
  logs that have an end time, and with the text ``H hours M minutes'' where
  \<open>H = \<lfloor>total / 3600000\<rfloor>\<close> and \<open>M = \<lfloor>r / 60000\<rfloor>\<close> for \<open>r\<close> the remainder
  \<open>total % 3600000\<close> of JavaScript, which is \<open>total mod 3600000\<close> when the total is not
  negative. The query returns the database it was given, so asking again gives the same
  answer.
\<close>

theorem total_time_spec:
  assumes f: "findById sprint_id (Sprints d) sid = Some s"
  shows "(timeLogs s = [] \<longrightarrow>
           total_time d sid = (Response 404 ''No time logs found for this sprint'' NoData, d))
    \<and> (timeLogs s \<noteq> [] \<and> abs_total (timeLogs s) \<le> 2 ^ 53 \<longrightarrow>
         total_time d sid =
           (Response 200 []
              (TotalTime (spec_total (timeLogs s))
                 (show_int (spec_total (timeLogs s) div 3600000) @ '' hours '' @
                  show_int (js_rem (spec_total (timeLogs s)) 3600000 div 60000) @ '' minutes'')),
            d))
    \<and> (0 \<le> spec_total (timeLogs s) \<longrightarrow>
         js_rem (spec_total (timeLogs s)) 3600000 = spec_total (timeLogs s) mod 3600000)
    \<and> total_time (snd (total_time d sid)) sid = total_time d sid"
proof -
  have 0: "timeLogs s = [] \<longrightarrow>
      total_time d sid = (Response 404 ''No time logs found for this sprint'' NoData, d)"
    using f by (simp add: total_time_def)
  have 1: "timeLogs s \<noteq> [] \<and> abs_total (timeLogs s) \<le> 2 ^ 53 \<longrightarrow>
         total_time d sid =
           (Response 200 []
              (TotalTime (spec_total (timeLogs s))
                 (show_int (spec_total (timeLogs s) div 3600000) @ '' hours '' @
                  show_int (js_rem (spec_total (timeLogs s)) 3600000 div 60000) @ '' minutes'')),
            d)"
  proof
    assume h: "timeLogs s \<noteq> [] \<and> abs_total (timeLogs s) \<le> 2 ^ 53"
    then have "\<bar>0\<bar> + abs_total (timeLogs s) \<le> 2 ^ 53" by simp
    from foldl_add_log[OF this] have t: "foldl add_log 0 (timeLogs s) = spec_total (timeLogs s)"
      by simp
    from h spec_total_le_abs[of "timeLogs s"] have "\<bar>spec_total (timeLogs s)\<bar> \<le> 2 ^ 53"
      by linarith
    then have hq: "floor_quot (spec_total (timeLogs s)) 3600000
        = spec_total (timeLogs s) div 3600000"
      by (intro floor_quot_exact not_power_3600000) simp_all
    have mq: "floor_quot (js_rem (spec_total (timeLogs s)) 3600000) 60000
        = js_rem (spec_total (timeLogs s)) 3600000 div 60000"
      by (intro floor_quot_exact not_power_60000 js_rem_small) simp_all
    from f h t hq mq show "total_time d sid =
           (Response 200 []
              (TotalTime (spec_total (timeLogs s))
                 (show_int (spec_total (timeLogs s) div 3600000) @ '' hours '' @
                  show_int (js_rem (spec_total (timeLogs s)) 3600000 div 60000) @ '' minutes'')),
            d)"
      by (simp add: total_time_def Let_def)
  qed
  have 2: "0 \<le> spec_total (timeLogs s) \<longrightarrow>
         js_rem (spec_total (timeLogs s)) 3600000 = spec_total (timeLogs s) mod 3600000"
    by (simp add: js_rem_nonneg)
  have 3: "total_time (snd (total_time d sid)) sid = total_time d sid"
    using f by (simp add: total_time_def Let_def)
  from 0 1 2 3 show ?thesis by blast
qed

text \<open>
  A finished log of 3000 ms, one of an hour and a half and a running log: the running
  log adds nothing. And the planned example sprint, which has no log.
\<close>

theorem total_time_spec_witness:
  "findById sprint_id (Sprints (active_db [log_done, log_long, log_running])) 1
     = Some (active_sprint [log_done, log_long, log_running])
   \<and> timeLogs (active_sprint [log_done, log_long, log_running]) \<noteq> []
   \<and> abs_total (timeLogs (active_sprint [log_done, log_long, log_running])) \<le> 2 ^ 53
   \<and> spec_total (timeLogs (active_sprint [log_done, log_long, log_running])) = 5403000
   \<and> fst (total_time (active_db [log_done, log_long, log_running]) 1)
       = Response 200 [] (TotalTime 5403000 ''1 hours 30 minutes'')
   \<and> findById sprint_id (Sprints ex_db) 1 = Some ex_sprint \<and> timeLogs ex_sprint = []
   \<and> fst (total_time ex_db 1) = Response 404 ''No time logs found for this sprint'' NoData"
proof -
  have 1: "findById sprint_id (Sprints (active_db [log_done, log_long, log_running])) 1
     = Some (active_sprint [log_done, log_long, log_running])"
    by (simp add: ex_defs findById_def)
  have 2: "timeLogs (active_sprint [log_done, log_long, log_running]) \<noteq> []"
    by (simp add: ex_defs)
  have 3: "spec_total (timeLogs (active_sprint [log_done, log_long, log_running])) = 5403000"
    by (simp add: ex_defs spec_total_def)
  have 4: "abs_total (timeLogs (active_sprint [log_done, log_long, log_running])) \<le> 2 ^ 53"
    by (simp add: ex_defs abs_total_def)
  have 5: "show_int (5403000 div 3600000) @ '' hours '' @
           show_int (js_rem 5403000 3600000 div 60000) @ '' minutes'' = ''1 hours 30 minutes''"
    by (simp add: show_int_def js_rem_def digit_def)
  from total_time_spec[OF 1] 2 4 have
    "total_time (active_db [log_done, log_long, log_running]) 1 =
       (Response 200 []
          (TotalTime (spec_total (timeLogs (active_sprint [log_done, log_long, log_running])))
             (show_int (spec_total (timeLogs (active_sprint [log_done, log_long, log_running]))
                  div 3600000) @ '' hours '' @
              show_int (js_rem (spec_total (timeLogs (active_sprint [log_done, log_long, log_running])))
                  3600000 div 60000) @ '' minutes'')),
        active_db [log_done, log_long, log_running])"
    by blast
  then have 6: "fst (total_time (active_db [log_done, log_long, log_running]) 1)
       = Response 200 [] (TotalTime 5403000 ''1 hours 30 minutes'')"
    unfolding 3 5 by simp
  have 7: "findById sprint_id (Sprints ex_db) 1 = Some ex_sprint"
    by (simp add: ex_defs findById_def)
  have 8: "timeLogs ex_sprint = []" by (simp add: ex_defs)
  from total_time_spec[OF 7] 8 have
    "total_time ex_db 1 = (Response 404 ''No time logs found for this sprint'' NoData, ex_db)"
    by blast
  then have 9: "fst (total_time ex_db 1)
      = Response 404 ''No time logs found for this sprint'' NoData"
    by simp
  from 1 2 4 3 6 7 8 9 show ?thesis by blast
qed

text \<open>A sprint with no time log gets 404 and no total.\<close>

theorem total_time_no_logs:
  "findById sprint_id (Sprints ex_db) 1 = Some ex_sprint
   \<and> timeLogs ex_sprint = []
   \<and> total_time ex_db 1 = (Response 404 ''No time logs found for this sprint'' NoData, ex_db)"
  by (simp add: ex_defs findById_def total_time_def)

text \<open>
  Beyond \<open>2 ^ 53\<close> the handler's numbers are rounded: the longest log that can be stored
  has an odd length above \<open>2 ^ 53\<close>, and the total returned is the even number next to
  it, a whole number of hours.
\<close>

lemma total_time_rounded:
  "spec_total [log_widest] = 17279999999999999
   \<and> fst (total_time (active_db [log_widest]) 1)
       = Response 200 [] (TotalTime 17280000000000000 ''4800000000 hours 0 minutes'')"
  by (simp add: ex_defs findById_def total_time_def spec_total_def add_log_def fl_def
        floor_quot_def round_div_def ilog2.simps js_rem_def show_int_def digit_def Let_def)

text \<open>
  For a negative total, which logs that end before they start give, the two remainders
  differ and so do the minutes.
\<close>

lemma js_rem_negative:
  "js_rem (- 1) 3600000 div 60000 = - 1 \<and> ((- 1 :: int) mod 3600000) div 60000 = 59"
  by (simp add: js_rem_def)


section \<open>One running log per assignee\<close>

lemma list_all_save:
  "list_all P xs \<Longrightarrow> P x \<Longrightarrow> list_all P (save key x xs)"
  by (auto simp: save_def list_all_iff)

text \<open>
  The invariant only needs to look at the assignees that have a log in the sprint: it
  says the same as its reading over every assignee.
\<close>

lemma one_running_log_iff:
  "one_running_log s = (\<forall>a. length (running_logs a s) \<le> 1)"
proof
  assume i: "one_running_log s"
  show "\<forall>a. length (running_logs a s) \<le> 1"
  proof
    fix a
    have "running_logs a s = [] \<or> a \<in> set (map assigneeId (timeLogs s))"
      by (auto simp: running_logs_def running_for_def filter_empty_conv)
    with i show "length (running_logs a s) \<le> 1"
      by (auto simp: one_running_log_def)
  qed
next
  assume "\<forall>a. length (running_logs a s) \<le> 1"
  then show "one_running_log s" by (simp add: one_running_log_def)
qed

lemma find_None_running_logs:
  "List.find (running_for a) (timeLogs s) = None \<Longrightarrow> running_logs a s = []"
  by (auto simp: running_logs_def find_None_iff filter_empty_conv)

text \<open>
  Start refuses an assignee who has a running log in the sprint, and both start and
  stop keep the invariant.
\<close>

lemma time_log_start_refuses:
  assumes "findById sprint_id (Sprints d) sid = Some s" and "running_logs a s \<noteq> []"
  shows "code (fst (time_log_start getEmployeeById now d sid iid a)) \<in> {400, 404, 500}
       \<and> snd (time_log_start getEmployeeById now d sid iid a) = d"
proof -
  from assms(2) have "List.find (running_for a) (timeLogs s) \<noteq> None"
    using find_None_running_logs by blast
  with assms(1) show ?thesis
    by (auto simp: time_log_start_def split: option.split)
qed

lemma one_running_log_append:
  assumes "one_running_log s" and "running_logs a s = []"
  shows "one_running_log
     (s\<lparr>timeLogs := timeLogs s @
          [\<lparr>assigneeId = a, issueId = iid, startTime = now, endTime = None, timeSpent = 0\<rparr>]\<rparr>)"
proof -
  have "length (running_logs b (s\<lparr>timeLogs := timeLogs s @
          [\<lparr>assigneeId = a, issueId = iid, startTime = now, endTime = None, timeSpent = 0\<rparr>]\<rparr>)) \<le> 1"
    for b
  proof (cases "b = a")
    case True
    with assms(2) show ?thesis by (simp add: running_logs_def running_for_def)
  next
    case False
    have "running_logs b s = [] \<or> b \<in> set (map assigneeId (timeLogs s))"
      by (auto simp: running_logs_def running_for_def filter_empty_conv)
    with assms(1) have "length (running_logs b s) \<le> 1"
      by (auto simp: one_running_log_def)
    with False show ?thesis by (simp add: running_logs_def running_for_def)
  qed
  then show ?thesis by (simp add: one_running_log_def)
qed

lemma time_log_start_preserves:
  assumes "db_one_running_log d"
  shows "db_one_running_log (snd (time_log_start getEmployeeById now d sid iid a))"
proof (cases "findById sprint_id (Sprints d) sid")
  case None
  with assms show ?thesis by (simp add: time_log_start_def)
next
  case (Some s)
  then have "s \<in> set (Sprints d)" by (auto dest: findById_SomeD)
  with assms have i: "one_running_log s" by (simp add: db_one_running_log_def list_all_iff)
  show ?thesis
  proof (cases "List.find (running_for a) (timeLogs s)")
    case (Some l)
    then have "running_logs a s \<noteq> []"
      by (auto simp: running_logs_def find_Some_iff filter_empty_conv)
    from time_log_start_refuses[OF \<open>findById sprint_id (Sprints d) sid = Some s\<close> this] assms
    show ?thesis by simp
  next
    case None
    note one_running_log_append[OF i find_None_running_logs[OF None], of iid now]
    with assms None \<open>findById sprint_id (Sprints d) sid = Some s\<close> show ?thesis
      by (auto simp: time_log_start_def db_one_running_log_def Let_def list_all_save
          split: option.split)
  qed
qed

lemma filter_update_first_le:
  assumes "\<And>x. \<not> Q (f x)"
  shows "length (filter Q (update_first P f xs)) \<le> length (filter Q xs)"
  using assms by (induction xs) auto

lemma map_update_first:
  assumes "\<And>x. g (f x) = g x"
  shows "map g (update_first P f xs) = map g xs"
  using assms by (induction xs) auto

lemma one_running_log_stop:
  assumes "one_running_log s"
  shows "one_running_log
     (s\<lparr>timeLogs := update_first P
          (\<lambda>l. l\<lparr>endTime := Some now, timeSpent := t\<rparr>) (timeLogs s)\<rparr>)"
proof -
  let ?f = "\<lambda>l. l\<lparr>endTime := Some now, timeSpent := t\<rparr>"
  have "length (filter (running_for b) (update_first P ?f (timeLogs s)))
      \<le> length (filter (running_for b) (timeLogs s))" for b
    by (rule filter_update_first_le) (simp add: running_for_def)
  moreover have "map assigneeId (update_first P ?f (timeLogs s))
      = map assigneeId (timeLogs s)"
    by (rule map_update_first) simp
  ultimately show ?thesis using assms
    unfolding one_running_log_def running_logs_def
    by (auto intro: order_trans simp del: set_map)
qed

lemma time_log_stop_preserves:
  assumes "db_one_running_log d"
  shows "db_one_running_log (snd (time_log_stop now d sid a))"
proof (cases "findById sprint_id (Sprints d) sid")
  case None
  with assms show ?thesis by (simp add: time_log_stop_def)
next
  case (Some s)
  then have "s \<in> set (Sprints d)" by (auto dest: findById_SomeD)
  with assms have i: "one_running_log s" by (simp add: db_one_running_log_def list_all_iff)
  show ?thesis
  proof (cases "List.find (stop_match a) (timeLogs s)")
    case None
    with Some assms show ?thesis by (simp add: time_log_stop_def)
  next
    case (Some log)
    from time_log_stop_found[OF \<open>findById sprint_id (Sprints d) sid = Some s\<close> Some, of now]
      one_running_log_stop[OF i, where P = "stop_match a" and now = now and t = "now - startTime log"] assms
    show ?thesis by (simp add: db_one_running_log_def list_all_save)
  qed
qed

text \<open>
  C1. In every sprint each assignee has at most one log with no end time, and every
  operation on \<open>timeLogs\<close> keeps it so. Start and stop do (above).
  \<open>POST /time-log/:sprintId\<close> does not: it makes no check before it pushes the log. On
  the active sprint, where employee 7 has the running log \<open>log_running\<close>, it answers 200
  for a body with employee 7 and no end time, and the stored sprint then has two running
  logs of employee 7.
\<close>

theorem add_time_log_second_running_log:
  "findById sprint_id (Sprints (active_db [log_done, log_running])) 1
     = Some (active_sprint [log_done, log_running])
   \<and> running_logs 7 (active_sprint [log_done, log_running]) = [log_running]
   \<and> add_time_log (active_db [log_done, log_running]) 1 second_log =
       (Response 200 [] (TimeLogData second_log),
        active_db [log_done, log_running,
          \<lparr>assigneeId = 7, issueId = 11, startTime = 6000, endTime = None, timeSpent = 0\<rparr>])
   \<and> running_logs 7
        (active_sprint [log_done, log_running,
          \<lparr>assigneeId = 7, issueId = 11, startTime = 6000, endTime = None, timeSpent = 0\<rparr>])
       = [log_running,
          \<lparr>assigneeId = 7, issueId = 11, startTime = 6000, endTime = None, timeSpent = 0\<rparr>]"
  by (simp add: ex_defs findById_def running_logs_def running_for_def
        add_time_log_def save_def)

text \<open>So the invariant holds before that request and not after it.\<close>

lemma add_time_log_breaks_invariant:
  "db_one_running_log (active_db [log_done, log_running])
   \<and> \<not> db_one_running_log (snd (add_time_log (active_db [log_done, log_running]) 1 second_log))"
  by (simp add: ex_defs findById_def running_logs_def running_for_def
        add_time_log_def save_def db_one_running_log_def one_running_log_def)

section \<open>The velocity report\<close>

text \<open>
  Whatever the sprints and issues are, each entry of \<open>velocityData\<close> in the response is
  the empty object: the handler maps an \<open>async\<close> function over the sprints and sends
  the promises without awaiting them.
\<close>

lemma velocity_all_empty:
  "velocity strictQuery d pid n =
     (Response 200 []
        (Body (JObj [(''velocityData'',
           JArr (replicate (length (limit n (filter (\<lambda>s. projectId s = pid) (Sprints d))))
                   (JObj [])))])),
      d)"
proof -
  have "map (stringify_promise \<circ> velocity_entry strictQuery d) xs
      = replicate (length xs) (JObj [])" for xs
    by (induction xs) (simp_all add: stringify_promise_def)
  then show ?thesis by (simp add: velocity_def Let_def)
qed

text \<open>
  C9. The velocity report gives, for each sprint of the project, \<open>plannedWork\<close> as the
  number of issues linked to the sprint and \<open>completedWork\<close> as the number of those
  that are done. On the example, project 100 has one sprint, which lists issues 10, 11
  and 12, of which issue 10 is done; the report's only entry is the empty object, with
  neither count in it, under either setting of \<open>strictQuery\<close>.
\<close>

theorem velocity_returns_promises:
  "filter (\<lambda>s. projectId s = 100) (Sprints velocity_db) = [active_sprint [log_done]]
   \<and> map issue_id (linked_issues velocity_db (active_sprint [log_done])) = [10, 11, 12]
   \<and> map issue_id (filter (\<lambda>i. issue_status i = Done)
                      (linked_issues velocity_db (active_sprint [log_done]))) = [10]
   \<and> velocity True velocity_db 100 None =
       (Response 200 [] (Body (JObj [(''velocityData'', JArr [JObj []])])), velocity_db)
   \<and> velocity False velocity_db 100 None =
       (Response 200 [] (Body (JObj [(''velocityData'', JArr [JObj []])])), velocity_db)"
  by (simp add: ex_defs linked_issues_def velocity_def limit_def
        stringify_promise_def)

text \<open>
  The value such a promise settles to does not count the sprint's issues either: the
  query filters on \<open>sprint\<close>, and it finds all four issues of the collection, or none.
\<close>

lemma velocity_entry_settles:
  "velocity_entry True velocity_db (active_sprint [log_done]) =
     Promise (JObj [(''sprintName'', JStr ''Sprint 1''), (''plannedWork'', JNum 4),
                    (''completedWork'', JNum 2)])
   \<and> velocity_entry False velocity_db (active_sprint [log_done]) =
     Promise (JObj [(''sprintName'', JStr ''Sprint 1''), (''plannedWork'', JNum 0),
                    (''completedWork'', JNum 0)])"
  by (simp add: ex_defs velocity_entry_def find_by_sprint_def)

end
